theory Spec2Isabelle
  imports Main
begin

section \<open>slackgammon: a Slack front end for GNU Backgammon\<close>

text \<open>
  The development embeds \<^verbatim>\<open>slackgammon.py\<close>: the line reader \<^verbatim>\<open>StreamReadlines\<close>,
  the subprocess wrapper \<^verbatim>\<open>GnubgWorker\<close>, the registry \<^verbatim>\<open>GnubgManager\<close> with its two
  decorators, and the part of the request handler that selects a command.

  The engine is an operating-system process, so its behaviour is an input of the model:
  a process carries the outcomes of the bounded reads that are still to come, and whether
  it exits within the grace period once it has been told to quit. Everything the Python
  code does with these inputs is computed by the definitions below.
\<close>

subsection \<open>Python string operations\<close>

text \<open>
  Text is a list of characters of the ASCII range, which is what the engine prints.
  \<^verbatim>\<open>str.isspace\<close> on that range:
\<close>

definition isspace :: "char \<Rightarrow> bool" where
  "isspace c = (c \<in> set [CHR 0x09, CHR 0x0A, CHR 0x0B, CHR 0x0C, CHR 0x0D,
                          CHR 0x1C, CHR 0x1D, CHR 0x1E, CHR 0x1F, CHR 0x20])"

text \<open>
  \<^verbatim>\<open>s.split()\<close> without a separator: the maximal runs of non-whitespace characters, in
  order. The first argument is the word read so far.
\<close>

fun split_from :: "string \<Rightarrow> string \<Rightarrow> string list" where
  "split_from word [] = (if word = [] then [] else [word])"
| "split_from word (c # cs) =
     (if isspace c
      then (if word = [] then split_from [] cs else word # split_from [] cs)
      else split_from (word @ [c]) cs)"

definition str_split :: "string \<Rightarrow> string list" where
  "str_split s = split_from [] s"

text \<open>\<^verbatim>\<open>sep.join(xs)\<close>.\<close>

fun join :: "string \<Rightarrow> string list \<Rightarrow> string" where
  "join sep [] = []"
| "join sep [x] = x"
| "join sep (x # y # ys) = x @ sep @ join sep (y # ys)"

text \<open>\<^verbatim>\<open>s.startswith(p)\<close>.\<close>

definition startswith :: "string \<Rightarrow> string \<Rightarrow> bool" where
  "startswith s p = (take (length p) s = p)"

text \<open>\<^verbatim>\<open>str(n)\<close> for an integer, as \<^verbatim>\<open>format\<close> renders it.\<close>

function digits :: "nat \<Rightarrow> string" where
  "digits n = (if n < 10 then [char_of (48 + n)] else digits (n div 10) @ [char_of (48 + n mod 10)])"
  by pat_completeness auto
termination
  by (relation "measure (\<lambda>n. n)") auto

declare digits.simps [simp del]

definition str_int :: "int \<Rightarrow> string" where
  "str_int i = (if i < 0 then ''-'' @ digits (nat (- i)) else digits (nat i))"

subsection \<open>StreamReadlines\<close>

text \<open>
  One call of \<^verbatim>\<open>asyncio.wait_for(stream_reader.readline(), timeout)\<close> either returns the
  bytes read (the empty byte string at end of stream) or raises \<^verbatim>\<open>TimeoutError\<close>. A
  stream is the list of the outcomes still to come; once the list is exhausted the stream
  is at end of stream, where \<^verbatim>\<open>readline\<close> returns the empty byte string. Bytes and
  their decoded text are both \<^typ>\<open>string\<close>. The list is finite: a process that prints
  line after line for ever, never pausing for the length of the timeout, would keep the
  loop of \<^verbatim>\<open>command\<close> running for ever and is not covered.
\<close>

datatype read_outcome = Read string | TimedOut

type_synonym stream = "read_outcome list"

text \<open>
  \<^verbatim>\<open>__anext__\<close>: \<open>Some line\<close> is the line returned, \<open>None\<close> is \<^verbatim>\<open>StopAsyncIteration\<close>.
  The second component is the stream afterwards.
\<close>

fun anext :: "stream \<Rightarrow> string option \<times> stream" where
  "anext [] = (None, [])"
| "anext (TimedOut # rest) = (None, rest)"
| "anext (Read line # rest) = (if line \<noteq> [] then (Some line, rest) else (None, rest))"

text \<open>
  The loop \<^verbatim>\<open>async for line in self.readlines(): lines.append(line.decode())\<close>: all lines
  up to the first \<^verbatim>\<open>StopAsyncIteration\<close>, and the stream that is left.
\<close>

function readlines :: "stream \<Rightarrow> string list \<times> stream" where
  "readlines s =
     (case anext s of
        (None, s') \<Rightarrow> ([], s')
      | (Some line, s') \<Rightarrow> (let (lines, s'') = readlines s' in (line # lines, s'')))"
  by pat_completeness auto
termination
  apply (relation "measure length")
   apply simp
  subgoal for s x line s'
    by (cases s rule: anext.cases) (auto split: if_splits)
  done

declare readlines.simps [simp del]

subsection \<open>GnubgWorker\<close>

text \<open>
  The subprocess behind a worker: the lines written to its standard input (oldest first),
  its merged output as a stream, whether it is still running, and whether it exits by
  itself within the 0.1 s that \<^verbatim>\<open>quit\<close> waits for it.
\<close>

datatype proc_status = Running | Exited | Killed

record process =
  stdin_written :: "string list"
  stdout :: stream
  status :: proc_status
  exits_in_grace :: bool

datatype exn = OSError | StopIteration | IndexError | KeyError | ProcessLookupError

text \<open>\<^verbatim>\<open>writeline\<close>: one line, terminated by a newline, to standard input.\<close>

definition writeline :: "process \<Rightarrow> string \<Rightarrow> process" where
  "writeline p text = p\<lparr>stdin_written := stdin_written p @ [text @ ''\<newline>'']\<rparr>"

text \<open>\<^verbatim>\<open>command\<close>: write the line, then collect the lines of the response.\<close>

definition command :: "process \<Rightarrow> string \<Rightarrow> string list \<times> process" where
  "command p text =
     (let p1 = writeline p text;
          (lines, rest) = readlines (stdout p1)
      in (lines, p1\<lparr>stdout := rest\<rparr>))"

text \<open>
  \<^verbatim>\<open>proc.kill()\<close>: asyncio raises \<^verbatim>\<open>ProcessLookupError\<close> when the process is no longer
  there.
\<close>

definition kill :: "process \<Rightarrow> exn + process" where
  "kill p = (if status p = Running then Inr (p\<lparr>status := Killed\<rparr>) else Inl ProcessLookupError)"

text \<open>
  \<^verbatim>\<open>asyncio.wait_for(self.proc.wait(), 0.1)\<close>: \<open>Some p'\<close> when the wait returns (at once
  for a process that is gone already), \<open>None\<close> for \<^verbatim>\<open>TimeoutError\<close>.
\<close>

definition wait_for_exit :: "process \<Rightarrow> process option" where
  "wait_for_exit p =
     (if status p \<noteq> Running then Some p
      else if exits_in_grace p then Some (p\<lparr>status := Exited\<rparr>)
      else None)"

text \<open>\<^verbatim>\<open>GnubgWorker.quit\<close>. The first component is the exception raised, if any.\<close>

definition worker_quit :: "process \<Rightarrow> exn option \<times> process" where
  "worker_quit p =
     (let (_, p1) = command p ''quit'';
          (_, p2) = command p1 ''y''
      in case wait_for_exit p2 of
           Some p3 \<Rightarrow> (None, p3)
         | None \<Rightarrow> (case kill p2 of Inr p3 \<Rightarrow> (None, p3) | Inl e \<Rightarrow> (Some e, p2)))"

subsection \<open>SlackTemplate\<close>

definition template_NewGame :: "string \<Rightarrow> string \<Rightarrow> string \<Rightarrow> string" where
  "template_NewGame challenger challenged board =
     challenger @ '' started a new game against '' @ challenged @ '':\<newline>```\<newline>'' @ board @ ''```''"

definition template_Command :: "string \<Rightarrow> string \<Rightarrow> string \<Rightarrow> string" where
  "template_Command player cmd gnubg_output =
     player @ '' attempted to `'' @ cmd @ ''`:\<newline>```\<newline>'' @ gnubg_output @ ''```''"

definition template_Quit :: "string \<Rightarrow> string \<Rightarrow> string" where
  "template_Quit quitter opponent = quitter @ '' quit game against '' @ opponent"

definition template_Info :: "int \<Rightarrow> int \<Rightarrow> string \<Rightarrow> string" where
  "template_Info active_games maxg games =
     ''There are currently '' @ str_int active_games @ ''/'' @ str_int maxg @ '' games:\<newline>'' @ games"

subsection \<open>GnubgManager: state\<close>

text \<open>
  \<^verbatim>\<open>COMMANDS\<close>: name, formal parameters, help text, in the order of the source.
\<close>

definition COMMANDS :: "(string \<times> string list \<times> string) list" where
  "COMMANDS =
     [(''help'', [], ''Print a list of all commands''),
      (''info'', [], ''Print info about running games.''),
      (''new'', [''player''], ''Start a new game against <player> (default: gnubg)''),
      (''move'', [''from1'', ''to1'', ''...''], ''Move checkers''),
      (''double'', [], ''Offer a double''),
      (''roll'', [], ''Roll the dice''),
      (''accept'', [], ''Accept a cube or resignation''),
      (''redouble'', [], ''Accept the cube one level higher than it was offered''),
      (''reject'', [], ''Reject a cube or resignation''),
      (''resign'', [], ''Offer to end the current game''),
      (''quit'', [], ''Quit active game'')]"

definition HELP_TEXT :: string where
  "HELP_TEXT =
     ''Commands:\<newline>'' @
     join ''\<newline>''
       (map (\<lambda>(c, args, h). c @ '' '' @ join '' '' (map (\<lambda>a. ''<'' @ a @ ''>'') args) @ '': '' @ h)
            COMMANDS)"

text \<open>
  What a handler returns: \<^verbatim>\<open>web.Response\<close> with its text (empty for \<^verbatim>\<open>web.Response()\<close>)
  or one of the three HTTP errors with its text. A handler that raises yields \<open>Inl\<close>.
\<close>

datatype http =
    Response string
  | HTTPForbidden string
  | HTTPServiceUnavailable string
  | HTTPBadRequest string

type_synonym response = "exn + http"

record slack_params =
  user_id :: string
  user_name :: string
  channel_id :: string

type_synonym players = "string \<times> string"

text \<open>
  The manager together with the objects it refers to. \<^verbatim>\<open>workers\<close> is the dictionary
  \<^verbatim>\<open>{ (player1, player2): GnubgWorker }\<close>, listed in insertion order (the order in which
  Python 3.7 iterates; Python 3.5 fixes none, and the order only matters for a caller who
  is in several entries). A worker is a reference, here the index of its process in
  \<open>procs\<close>, so that a process outlives its dictionary entry as the operating-system
  process does. \<open>posted\<close> lists the messages handed to \<^verbatim>\<open>webhook.post\<close> with their
  channels; delivery is taken to return.
\<close>

record manager =
  max_games :: int
  workers :: "(players \<times> nat) list"
  procs :: "process list"
  posted :: "(string \<times> string) list"

text \<open>\<^verbatim>\<open>GnubgManager(executable_path, max_games, webhook)\<close>.\<close>

definition init :: "int \<Rightarrow> manager" where
  "init maxg = \<lparr>max_games = maxg, workers = [], procs = [], posted = []\<rparr>"

definition post :: "manager \<Rightarrow> string \<Rightarrow> string \<Rightarrow> manager" where
  "post m message channel = m\<lparr>posted := posted m @ [(message, channel)]\<rparr>"

text \<open>\<^verbatim>\<open>worker.command(text)\<close> and \<^verbatim>\<open>worker.quit()\<close> through the reference.\<close>

definition command_of :: "manager \<Rightarrow> nat \<Rightarrow> string \<Rightarrow> string list \<times> manager" where
  "command_of m w text =
     (let (lines, p) = command (procs m ! w) text
      in (lines, m\<lparr>procs := (procs m)[w := p]\<rparr>))"

definition quit_of :: "manager \<Rightarrow> nat \<Rightarrow> exn option \<times> manager" where
  "quit_of m w =
     (let (e, p) = worker_quit (procs m ! w)
      in (e, m\<lparr>procs := (procs m)[w := p]\<rparr>))"

text \<open>
  \<^verbatim>\<open>GnubgWorker()\<close> followed by \<^verbatim>\<open>start\<close>. What \<^verbatim>\<open>create_subprocess_exec\<close> gives is
  an input: \<open>None\<close> when the executable cannot be started, otherwise the output the new
  process will produce and whether it will exit within the grace period of \<^verbatim>\<open>quit\<close>.
  The copyright output is consumed before \<^verbatim>\<open>start\<close> returns.
\<close>

definition start :: "(stream \<times> bool) option \<Rightarrow> manager \<Rightarrow> exn + (nat \<times> manager)" where
  "start spawned m =
     (case spawned of
        None \<Rightarrow> Inl OSError
      | Some (out, g) \<Rightarrow>
          (let (_, rest) = readlines out;
               p = \<lparr>stdin_written = [], stdout = rest, status = Running, exits_in_grace = g\<rparr>
           in Inr (length (procs m), m\<lparr>procs := procs m @ [p]\<rparr>)))"

text \<open>\<^verbatim>\<open>d[k] = v\<close> and \<^verbatim>\<open>del d[k]\<close> on a dictionary kept in insertion order.\<close>

fun dict_set :: "('k \<times> 'v) list \<Rightarrow> 'k \<Rightarrow> 'v \<Rightarrow> ('k \<times> 'v) list" where
  "dict_set [] k v = [(k, v)]"
| "dict_set ((k', v') # d) k v = (if k' = k then (k, v) # d else (k', v') # dict_set d k v)"

definition dict_del :: "('k \<times> 'v) list \<Rightarrow> 'k \<Rightarrow> exn + ('k \<times> 'v) list" where
  "dict_del d k = (if k \<in> set (map fst d) then Inr (filter (\<lambda>(k', v). k' \<noteq> k) d) else Inl KeyError)"

text \<open>\<^verbatim>\<open>user_name in players\<close> for a pair.\<close>

definition in_players :: "string \<Rightarrow> players \<Rightarrow> bool" where
  "in_players u ps = (u = fst ps \<or> u = snd ps)"

subsection \<open>GnubgManager: decorators\<close>

type_synonym handler = "manager \<Rightarrow> string list \<Rightarrow> slack_params \<Rightarrow> response \<times> manager"

type_synonym game_handler =
  "manager \<Rightarrow> string list \<Rightarrow> slack_params \<Rightarrow> string \<Rightarrow> string \<Rightarrow> nat \<Rightarrow> response \<times> manager"

text \<open>
  \<^verbatim>\<open>game_required(turn_required)\<close> applied to \<open>f\<close>. \<^verbatim>\<open>game[0]\<close> is the first entry of
  the dictionary that contains the caller; \<^verbatim>\<open>next(p for p in players if p != user_name)\<close>
  raises \<^verbatim>\<open>StopIteration\<close> when both players are the caller (the coroutine turns it
  into a \<^verbatim>\<open>RuntimeError\<close>); \<^verbatim>\<open>split()[0]\<close> raises \<^verbatim>\<open>IndexError\<close> when the output has
  no token. The worker handed to \<open>f\<close> is the reference found in the entry.
\<close>

definition game_required :: "bool \<Rightarrow> game_handler \<Rightarrow> handler" where
  "game_required turn_required f m params sp =
     (let user = user_name sp;
          game = filter (\<lambda>(ps, w). in_players user ps) (workers m)
      in case game of
           [] \<Rightarrow> (Inr (HTTPForbidden ''You do not have a game in progress.''), m)
         | (players, worker) # _ \<Rightarrow>
             (case find (\<lambda>p. p \<noteq> user) [fst players, snd players] of
                None \<Rightarrow> (Inl StopIteration, m)
              | Some opponent \<Rightarrow>
                  (let (lines, m1) = command_of m worker ''show turn''
                   in case str_split (concat lines) of
                        [] \<Rightarrow> (Inl IndexError, m1)
                      | turn # _ \<Rightarrow>
                          if turn_required \<and> turn \<noteq> user
                          then (Inr (HTTPForbidden ''It's not your turn!''), m1)
                          else f m1 params sp user opponent worker)))"

text \<open>\<^verbatim>\<open>run_command\<close> applied to the function named \<open>name\<close>.\<close>

definition run_command :: "string \<Rightarrow> game_handler" where
  "run_command name m params sp player opponent worker =
     (let cmd = join '' '' (name # params);
          (gnubg_output, m1) = command_of m worker cmd;
          slack_out = template_Command player cmd (concat gnubg_output);
          m2 = post m1 slack_out (channel_id sp);
          (lines, m3) = command_of m2 worker ''show turn''
      in if startswith (concat lines) ''No game''
         then (case quit_of m3 worker of
                 (Some e, m4) \<Rightarrow> (Inl e, m4)
               | (None, m4) \<Rightarrow> (Inr (Response []), m4))
         else (Inr (Response []), m3))"

subsection \<open>GnubgManager: commands\<close>

definition "help" :: handler where
  "help m params sp = (Inr (Response HELP_TEXT), m)"

definition info :: handler where
  "info m params sp =
     (let active = int (length (workers m));
          games = join ''\<newline>'' (map (\<lambda>((p1, p2), w). p1 @ '' vs. '' @ p2) (workers m))
      in (Inr (Response (template_Info active (max_games m) games)), m))"

text \<open>
  The opponent named by the parameters of \<^verbatim>\<open>new\<close>: \<open>None\<close> is the
  \<^verbatim>\<open>HTTPBadRequest\<close> branch.
\<close>

definition challenged_of :: "string list \<Rightarrow> string option" where
  "challenged_of params =
     (if params \<noteq> [] \<and> hd params \<noteq> ''gnubg''
      then (if startswith (hd params) ''@'' then Some (tl (hd params)) else None)
      else Some ''gnubg'')"

definition new :: "(stream \<times> bool) option \<Rightarrow> handler" where
  "new spawned m params sp =
     (if int (length (workers m)) = max_games m
      then (Inr (HTTPServiceUnavailable ''Max game limit reached. Try again after a game has finished.''), m)
      else
        let user = user_name sp
        in if list_ex (\<lambda>(ps, w). in_players user ps) (workers m)
           then (Inr (HTTPForbidden ''You already have a game in progress.''), m)
           else
             case challenged_of params of
               None \<Rightarrow> (Inr (HTTPBadRequest ''You must challenge gnubg or an existing slack user (e.g. @austin)''), m)
             | Some challenged \<Rightarrow>
                 (case start spawned m of
                    Inl e \<Rightarrow> (Inl e, m)
                  | Inr (worker, m1) \<Rightarrow>
                      (let m2 = m1\<lparr>workers := dict_set (workers m1) (user, challenged) worker\<rparr>;
                           (_, m3) = command_of m2 worker (''set player 1 name '' @ user);
                           m4 = (if challenged \<noteq> ''gnubg''
                                 then (let (_, a) = command_of m3 worker ''set player 0 human'';
                                           (_, b) = command_of a worker (''set player 0 name '' @ challenged)
                                       in b)
                                 else m3);
                           (gnubg_output, m5) = command_of m4 worker ''new game'';
                           slack_out = template_NewGame user challenged (concat gnubg_output);
                           m6 = post m5 slack_out (channel_id sp)
                       in (Inr (Response []), m6))))"

definition move :: handler where
  "move = game_required True (run_command ''move'')"

definition double :: handler where
  "double = game_required True (run_command ''double'')"

definition roll :: handler where
  "roll = game_required True (run_command ''roll'')"

definition accept :: handler where
  "accept = game_required False (run_command ''accept'')"

definition redouble :: handler where
  "redouble = game_required False (run_command ''redouble'')"

definition reject :: handler where
  "reject = game_required False (run_command ''reject'')"

definition resign :: handler where
  "resign = game_required True (run_command ''resign'')"

text \<open>The body of \<^verbatim>\<open>quit\<close>, and \<^verbatim>\<open>quit\<close> as decorated.\<close>

definition quit_body :: game_handler where
  "quit_body m params sp player opponent worker =
     (case quit_of m worker of
        (Some e, m1) \<Rightarrow> (Inl e, m1)
      | (None, m1) \<Rightarrow>
          (let key = (if (player, opponent) \<in> set (map fst (workers m1))
                      then (player, opponent) else (opponent, player))
           in case dict_del (workers m1) key of
                Inl e \<Rightarrow> (Inl e, m1)
              | Inr d \<Rightarrow>
                  (let m2 = m1\<lparr>workers := d\<rparr>;
                       slack_out = template_Quit player opponent;
                       m3 = post m2 slack_out (channel_id sp)
                   in (Inr (Response []), m3))))"

definition quit :: handler where
  "quit = game_required False quit_body"

subsection \<open>The request handler\<close>

text \<open>
  \<^verbatim>\<open>slackgammon\<close> from the point where the token and the required Slack parameters have
  been checked: the text is split, its first word selects the method of the manager
  (\<^verbatim>\<open>getattr\<close>), the remaining words are the parameters.
\<close>

definition slackgammon ::
  "(stream \<times> bool) option \<Rightarrow> manager \<Rightarrow> string \<Rightarrow> slack_params \<Rightarrow> response \<times> manager" where
  "slackgammon spawned m text sp =
     (case str_split text of
        [] \<Rightarrow> (Inr (HTTPBadRequest ''No command provided.''), m)
      | gnubg_command # gnubg_params \<Rightarrow>
          if gnubg_command \<notin> set (map fst COMMANDS) then (Inr (HTTPBadRequest ''Invalid command.''), m)
          else if gnubg_command = ''help'' then help m gnubg_params sp
          else if gnubg_command = ''info'' then info m gnubg_params sp
          else if gnubg_command = ''new'' then new spawned m gnubg_params sp
          else if gnubg_command = ''move'' then move m gnubg_params sp
          else if gnubg_command = ''double'' then double m gnubg_params sp
          else if gnubg_command = ''roll'' then roll m gnubg_params sp
          else if gnubg_command = ''accept'' then accept m gnubg_params sp
          else if gnubg_command = ''redouble'' then redouble m gnubg_params sp
          else if gnubg_command = ''reject'' then reject m gnubg_params sp
          else if gnubg_command = ''resign'' then resign m gnubg_params sp
          else quit m gnubg_params sp)"

text \<open>
  A request as the manager sees it: what a spawn would give, the command text, and the
  Slack parameters. A request that raises leaves the manager as it was at the raise. The
  states of a manager are those reached from \<open>init\<close> by a list of requests.
\<close>

record request =
  spawned :: "(stream \<times> bool) option"
  command_text :: string
  slack :: slack_params

definition step :: "manager \<Rightarrow> request \<Rightarrow> manager" where
  "step m r = snd (slackgammon (spawned r) m (command_text r) (slack r))"

definition reach :: "int \<Rightarrow> request list \<Rightarrow> manager" where
  "reach maxg rs = foldl step (init maxg) rs"

subsection \<open>Notions used in the statements\<close>

text \<open>The dictionary entries that contain \<open>u\<close>, in the order of the dictionary.\<close>

definition games_of :: "string \<Rightarrow> manager \<Rightarrow> (players \<times> nat) list" where
  "games_of u m = filter (\<lambda>(ps, w). in_players u ps) (workers m)"

text \<open>
  What worker \<open>w\<close> answers to the next command sent to it: the lines of its next response,
  joined.
\<close>

definition reply :: "manager \<Rightarrow> nat \<Rightarrow> string" where
  "reply m w = concat (fst (readlines (stdout (procs m ! w))))"

text \<open>
  The registry is well formed: no two entries have the same first player, every worker
  refers to a process, and no entry is the mirror image of another.
\<close>

definition well_formed :: "manager \<Rightarrow> bool" where
  "well_formed m = (distinct (map (fst \<circ> fst) (workers m)) \<and>
           (\<forall>(ps, w) \<in> set (workers m). w < length (procs m)) \<and>
           (\<forall>a b. (a, b) \<in> set (map fst (workers m)) \<longrightarrow> (b, a) \<in> set (map fst (workers m)) \<longrightarrow> a = b))"

subsection \<open>Sample callers and engines\<close>

text \<open>
  Three callers, and two engines given by what they print, for the concrete runs below.
\<close>

definition alice :: slack_params where
  "alice = \<lparr>user_id = ''U1'', user_name = ''alice'', channel_id = ''C1''\<rparr>"

definition bob :: slack_params where
  "bob = \<lparr>user_id = ''U2'', user_name = ''bob'', channel_id = ''C1''\<rparr>"

definition carol :: slack_params where
  "carol = \<lparr>user_id = ''U3'', user_name = ''carol'', channel_id = ''C2''\<rparr>"

text \<open>
  An engine playing against alice: the banner, silence after the player is named, the
  board, then alice on move, her resignation accepted, and no game left.
\<close>

definition lost_game :: stream where
  "lost_game =
     [Read ''GNU Backgammon\<newline>'', TimedOut,
      TimedOut,
      Read ''board\<newline>'', TimedOut,
      Read ''alice is on move.\<newline>'', TimedOut,
      Read ''alice offers to resign.\<newline>'', Read ''gnubg accepts.\<newline>'', TimedOut,
      Read ''No game is being played.\<newline>'', TimedOut,
      TimedOut]"

text \<open>An engine for a game of two people in which the second is on roll.\<close>

definition bobs_turn :: stream where
  "bobs_turn =
     [Read ''GNU Backgammon\<newline>'', TimedOut,
      TimedOut, TimedOut, TimedOut,
      Read ''board\<newline>'', TimedOut,
      Read ''bob is on roll.\<newline>'', TimedOut,
      TimedOut]"

section \<open>Properties\<close>

subsection \<open>The line reader\<close>

lemma readlines_Nil [simp]: "readlines [] = ([], [])"
  by (simp add: readlines.simps)

lemma readlines_TimedOut [simp]: "readlines (TimedOut # rest) = ([], rest)"
  by (simp add: readlines.simps)

lemma readlines_Read [simp]:
  "readlines (Read line # rest) =
     (if line \<noteq> [] then (line # fst (readlines rest), snd (readlines rest)) else ([], rest))"
  by (subst readlines.simps) (simp add: case_prod_beta)

lemma readlines_lines:
  "\<forall>l \<in> set ls. l \<noteq> [] \<Longrightarrow>
     readlines (map Read ls @ s) = (ls @ fst (readlines s), snd (readlines s))"
  by (induction ls) simp_all

text \<open>
  C8. One run of the reader over a stream: the non-empty lines \<open>ls\<close> that are read before
  the first wait that times out are all yielded, in the order they were emitted, and the
  run ends there without an error; it ends in the same way at the first empty read (end
  of stream), and when the stream is exhausted. What follows the timeout or the empty
  read stays in the stream for the next run.
\<close>

theorem readlines_until_idle_or_eof:
  "\<forall>line \<in> set ls. line \<noteq> [] \<Longrightarrow>
     readlines (map Read ls @ TimedOut # rest) = (ls, rest) \<and>
     readlines (map Read ls @ Read [] # rest) = (ls, rest) \<and>
     readlines (map Read ls) = (ls, [])"
  using readlines_lines [of ls "TimedOut # rest"] readlines_lines [of ls "Read [] # rest"]
    readlines_lines [of ls "[]"]
  by simp

theorem readlines_until_idle_or_eof_witness:
  "''a\<newline>'' \<noteq> [] \<and> ''b\<newline>'' \<noteq> [] \<and>
   readlines (map Read [''a\<newline>'', ''b\<newline>''] @ TimedOut # [Read ''c\<newline>''])
     = ([''a\<newline>'', ''b\<newline>''], [Read ''c\<newline>'']) \<and>
   readlines (map Read [''a\<newline>'', ''b\<newline>''] @ Read [] # [Read ''c\<newline>''])
     = ([''a\<newline>'', ''b\<newline>''], [Read ''c\<newline>'']) \<and>
   readlines (map Read [''a\<newline>'', ''b\<newline>'']) = ([''a\<newline>'', ''b\<newline>''], [])"
  using readlines_until_idle_or_eof [of "[''a\<newline>'', ''b\<newline>'']" "[Read ''c\<newline>'']"]
  by simp

subsection \<open>The worker\<close>

lemma command_fields [simp]:
  "fst (command p t) = fst (readlines (stdout p))"
  "stdin_written (snd (command p t)) = stdin_written p @ [t @ ''\<newline>'']"
  "stdout (snd (command p t)) = snd (readlines (stdout p))"
  "status (snd (command p t)) = status p"
  "exits_in_grace (snd (command p t)) = exits_in_grace p"
  by (simp_all add: command_def writeline_def case_prod_beta)

lemma worker_quit_eq:
  "worker_quit p =
     (None, (snd (command (snd (command p ''quit'')) ''y''))
        \<lparr>status := (if status p = Running then (if exits_in_grace p then Exited else Killed)
                     else status p)\<rparr>)"
  by (simp add: worker_quit_def wait_for_exit_def kill_def case_prod_beta Let_def)

lemma worker_quit_fields [simp]:
  "fst (worker_quit p) = None"
  "stdin_written (snd (worker_quit p)) = stdin_written p @ [''quit\<newline>'', ''y\<newline>'']"
  "stdout (snd (worker_quit p)) = snd (readlines (snd (readlines (stdout p))))"
  "status (snd (worker_quit p)) =
     (if status p = Running then (if exits_in_grace p then Exited else Killed) else status p)"
  "exits_in_grace (snd (worker_quit p)) = exits_in_grace p"
  by (simp_all add: worker_quit_eq)

text \<open>
  C9. \<^verbatim>\<open>GnubgWorker.quit\<close> never raises. It writes \<^verbatim>\<open>quit\<close> and then \<^verbatim>\<open>y\<close>; a running
  process that exits within the grace period ends as \<open>Exited\<close>, one that does not is
  killed, and a process that is gone already keeps its status, so the process is never
  left running. A second call raises nothing either and leaves the status as the first
  call left it.
\<close>

theorem worker_quit_terminates:
  "fst (worker_quit p) = None \<and>
   stdin_written (snd (worker_quit p)) = stdin_written p @ [''quit\<newline>'', ''y\<newline>''] \<and>
   status (snd (worker_quit p)) =
     (if status p = Running then (if exits_in_grace p then Exited else Killed) else status p) \<and>
   status (snd (worker_quit p)) \<noteq> Running \<and>
   fst (worker_quit (snd (worker_quit p))) = None \<and>
   status (snd (worker_quit (snd (worker_quit p)))) = status (snd (worker_quit p))"
  by simp

theorem worker_quit_terminates_witness:
  "worker_quit \<lparr>stdin_written = [], stdout = [Read ''bye\<newline>''], status = Running, exits_in_grace = False\<rparr>
     = (None, \<lparr>stdin_written = [''quit\<newline>'', ''y\<newline>''], stdout = [], status = Killed, exits_in_grace = False\<rparr>) \<and>
   worker_quit \<lparr>stdin_written = [''quit\<newline>'', ''y\<newline>''], stdout = [], status = Killed, exits_in_grace = False\<rparr>
     = (None, \<lparr>stdin_written = [''quit\<newline>'', ''y\<newline>'', ''quit\<newline>'', ''y\<newline>''], stdout = [],
               status = Killed, exits_in_grace = False\<rparr>)"
  using worker_quit_terminates
    [of "\<lparr>stdin_written = [], stdout = [Read ''bye\<newline>''], status = Running, exits_in_grace = False\<rparr>"]
  by (simp add: worker_quit_eq command_def writeline_def)

subsection \<open>The manager: effects of the operations\<close>

lemma post_fields [simp]:
  "workers (post m msg ch) = workers m"
  "max_games (post m msg ch) = max_games m"
  "procs (post m msg ch) = procs m"
  "posted (post m msg ch) = posted m @ [(msg, ch)]"
  by (simp_all add: post_def)

lemma command_of_fields [simp]:
  "fst (command_of m w t) = fst (readlines (stdout (procs m ! w)))"
  "workers (snd (command_of m w t)) = workers m"
  "max_games (snd (command_of m w t)) = max_games m"
  "posted (snd (command_of m w t)) = posted m"
  "procs (snd (command_of m w t)) = (procs m)[w := snd (command (procs m ! w) t)]"
  by (simp_all add: command_of_def case_prod_beta)

lemma quit_of_fields [simp]:
  "fst (quit_of m w) = None"
  "workers (snd (quit_of m w)) = workers m"
  "max_games (snd (quit_of m w)) = max_games m"
  "posted (snd (quit_of m w)) = posted m"
  "procs (snd (quit_of m w)) = (procs m)[w := snd (worker_quit (procs m ! w))]"
  by (simp_all add: quit_of_def case_prod_beta)

lemma run_command_eq:
  "run_command name m params sp player opponent w =
     (let cmd = join '' '' (name # params);
          m1 = snd (command_of m w cmd);
          m2 = post m1 (template_Command player cmd (concat (fst (command_of m w cmd)))) (channel_id sp);
          m3 = snd (command_of m2 w ''show turn'')
      in (Inr (Response []),
          if startswith (concat (fst (command_of m2 w ''show turn''))) ''No game''
          then snd (quit_of m3 w) else m3))"
  by (simp add: run_command_def Let_def case_prod_beta split: option.splits)

lemma run_command_fields [simp]:
  "fst (run_command name m params sp player opponent w) = Inr (Response [])"
  "workers (snd (run_command name m params sp player opponent w)) = workers m"
  "max_games (snd (run_command name m params sp player opponent w)) = max_games m"
  "length (procs (snd (run_command name m params sp player opponent w))) = length (procs m)"
  by (simp_all add: run_command_eq Let_def)

lemma opponent_find:
  "in_players u ps \<Longrightarrow> ps \<noteq> (u, u) \<Longrightarrow>
     find (\<lambda>p. p \<noteq> u) [fst ps, snd ps] = Some (if fst ps \<noteq> u then fst ps else snd ps)"
  by (cases ps) (auto simp: in_players_def)

lemma games_of_head: "games_of u m = (ps, w) # others \<Longrightarrow> in_players u ps \<and> (ps, w) \<in> set (workers m)"
proof -
  assume "games_of u m = (ps, w) # others"
  then have "(ps, w) \<in> set (filter (\<lambda>(ps, w). in_players u ps) (workers m))"
    by (simp add: games_of_def)
  then show ?thesis by simp
qed

lemma game_required_no_game:
  "games_of (user_name sp) m = [] \<Longrightarrow>
     game_required tr f m params sp = (Inr (HTTPForbidden ''You do not have a game in progress.''), m)"
  by (simp add: game_required_def games_of_def)

lemma game_required_self:
  "games_of (user_name sp) m = ((user_name sp, user_name sp), w) # others \<Longrightarrow>
     game_required tr f m params sp = (Inl StopIteration, m)"
  by (simp add: game_required_def games_of_def)

lemma game_required_game:
  assumes "games_of (user_name sp) m = (ps, w) # others" and "ps \<noteq> (user_name sp, user_name sp)"
  shows "game_required tr f m params sp =
     (case str_split (reply m w) of
        [] \<Rightarrow> (Inl IndexError, snd (command_of m w ''show turn''))
      | turn # _ \<Rightarrow>
          if tr \<and> turn \<noteq> user_name sp
          then (Inr (HTTPForbidden ''It's not your turn!''), snd (command_of m w ''show turn''))
          else f (snd (command_of m w ''show turn'')) params sp (user_name sp)
                 (if fst ps \<noteq> user_name sp then fst ps else snd ps) w)"
proof -
  have "in_players (user_name sp) ps" using games_of_head [OF assms(1)] by simp
  from opponent_find [OF this assms(2)] assms show ?thesis
    by (simp add: game_required_def games_of_def reply_def Let_def case_prod_beta prod_eq_iff
          split: list.splits)
qed

lemma quit_body_eq:
  "quit_body m params sp player opponent w =
     (let key = (if (player, opponent) \<in> set (map fst (workers m))
                 then (player, opponent) else (opponent, player))
      in if key \<in> set (map fst (workers m))
         then (Inr (Response []),
               post ((snd (quit_of m w))\<lparr>workers := filter (\<lambda>(k', v). k' \<noteq> key) (workers m)\<rparr>)
                    (template_Quit player opponent) (channel_id sp))
         else (Inl KeyError, snd (quit_of m w)))"
  by (simp add: quit_body_def dict_del_def Let_def case_prod_beta split: option.splits)

lemma dict_set_fresh: "k \<notin> set (map fst d) \<Longrightarrow> dict_set d k v = d @ [(k, v)]"
  by (induction d) auto

lemma no_conflict_fresh:
  "\<not> list_ex (\<lambda>(ps, w). in_players u ps) ws \<Longrightarrow> (u, c) \<notin> set (map fst ws)"
  by (auto simp: list_ex_iff in_players_def)

lemma new_capacity:
  "int (length (workers m)) = max_games m \<Longrightarrow>
     new env m params sp =
       (Inr (HTTPServiceUnavailable ''Max game limit reached. Try again after a game has finished.''), m)"
  by (simp add: new_def)

lemma new_conflict:
  "int (length (workers m)) \<noteq> max_games m \<Longrightarrow>
   list_ex (\<lambda>(ps, w). in_players (user_name sp) ps) (workers m) \<Longrightarrow>
     new env m params sp = (Inr (HTTPForbidden ''You already have a game in progress.''), m)"
  by (simp add: new_def)

lemma new_invalid:
  "int (length (workers m)) \<noteq> max_games m \<Longrightarrow>
   \<not> list_ex (\<lambda>(ps, w). in_players (user_name sp) ps) (workers m) \<Longrightarrow>
   challenged_of params = None \<Longrightarrow>
     new env m params sp =
       (Inr (HTTPBadRequest ''You must challenge gnubg or an existing slack user (e.g. @austin)''), m)"
  by (simp add: new_def)

lemma new_launch_failed:
  "int (length (workers m)) \<noteq> max_games m \<Longrightarrow>
   \<not> list_ex (\<lambda>(ps, w). in_players (user_name sp) ps) (workers m) \<Longrightarrow>
   challenged_of params = Some c \<Longrightarrow>
     new None m params sp = (Inl OSError, m)"
  by (simp add: new_def start_def)

lemma new_started:
  assumes "int (length (workers m)) \<noteq> max_games m"
    and "\<not> list_ex (\<lambda>(ps, w). in_players (user_name sp) ps) (workers m)"
    and "challenged_of params = Some c"
  shows "fst (new (Some (out, g)) m params sp) = Inr (Response [])"
    and "workers (snd (new (Some (out, g)) m params sp)) =
           workers m @ [((user_name sp, c), length (procs m))]"
    and "max_games (snd (new (Some (out, g)) m params sp)) = max_games m"
    and "length (procs (snd (new (Some (out, g)) m params sp))) = Suc (length (procs m))"
    and "\<forall>i < length (procs m). procs (snd (new (Some (out, g)) m params sp)) ! i = procs m ! i"
    and "stdin_written (procs (snd (new (Some (out, g)) m params sp)) ! length (procs m)) =
           (''set player 1 name '' @ user_name sp @ ''\<newline>'') #
           (if c \<noteq> ''gnubg''
            then [''set player 0 human\<newline>'', ''set player 0 name '' @ c @ ''\<newline>'']
            else []) @ [''new game\<newline>'']"
  using assms
  by (simp_all add: new_def start_def Let_def case_prod_beta nth_append
        dict_set_fresh [OF no_conflict_fresh [OF assms(2)]])

subsection \<open>The registry stays well formed\<close>

lemma wf_init: "well_formed (init n)"
  by (simp add: well_formed_def init_def)

lemma wf_filter:
  "well_formed m \<Longrightarrow> length (procs m') = length (procs m) \<Longrightarrow> workers m' = filter P (workers m) \<Longrightarrow> well_formed m'"
  unfolding well_formed_def by (auto simp: distinct_map_filter)

lemma wf_same:
  "well_formed m \<Longrightarrow> length (procs m') = length (procs m) \<Longrightarrow> workers m' = workers m \<Longrightarrow> well_formed m'"
  using wf_filter [of m m' "\<lambda>_. True"] by simp

lemma wf_new: "well_formed m \<Longrightarrow> well_formed (snd (new env m params sp))"
proof -
  assume wf: "well_formed m"
  consider (cap) "int (length (workers m)) = max_games m"
    | (conf) "int (length (workers m)) \<noteq> max_games m" "list_ex (\<lambda>(ps, w). in_players (user_name sp) ps) (workers m)"
    | (inv) "int (length (workers m)) \<noteq> max_games m" "\<not> list_ex (\<lambda>(ps, w). in_players (user_name sp) ps) (workers m)" "challenged_of params = None"
    | (fail) c where "int (length (workers m)) \<noteq> max_games m" "\<not> list_ex (\<lambda>(ps, w). in_players (user_name sp) ps) (workers m)" "challenged_of params = Some c" "env = None"
    | (ok) c out g where "int (length (workers m)) \<noteq> max_games m" "\<not> list_ex (\<lambda>(ps, w). in_players (user_name sp) ps) (workers m)" "challenged_of params = Some c" "env = Some (out, g)"
    by (cases "challenged_of params"; cases env) auto
  then show ?thesis
  proof cases
    case cap then show ?thesis using wf by (simp add: new_capacity)
  next
    case conf then show ?thesis using wf by (simp add: new_conflict)
  next
    case inv then show ?thesis using wf by (simp add: new_invalid)
  next
    case fail then show ?thesis using wf by (simp add: new_launch_failed)
  next
    case ok
    let ?m' = "snd (new (Some (out, g)) m params sp)"
    have w: "workers ?m' = workers m @ [((user_name sp, c), length (procs m))]"
      and l: "length (procs ?m') = Suc (length (procs m))"
      using new_started [OF ok(1-3)] by simp_all
    have fresh: "\<forall>(ps, w) \<in> set (workers m). user_name sp \<noteq> fst ps \<and> user_name sp \<noteq> snd ps"
      using ok(2) by (auto simp: list_ex_iff in_players_def)
    have "well_formed ?m'"
      unfolding well_formed_def w l using wf fresh
      by (fastforce simp: well_formed_def less_Suc_eq)
    then show ?thesis using ok(4) by simp
  qed
qed

lemma wf_game_required:
  assumes "well_formed m"
    and "\<And>m1 u opp w. well_formed m1 \<Longrightarrow> well_formed (snd (f m1 params sp u opp w))"
  shows "well_formed (snd (game_required tr f m params sp))"
proof (cases "games_of (user_name sp) m")
  case Nil
  then show ?thesis using assms(1) by (simp add: game_required_no_game)
next
  case (Cons g others)
  obtain ps w where g: "g = (ps, w)" by (cases g)
  show ?thesis
  proof (cases "ps = (user_name sp, user_name sp)")
    case True
    then show ?thesis using Cons g assms(1) by (simp add: game_required_self)
  next
    case False
    have m1: "well_formed (snd (command_of m w ''show turn''))"
      using assms(1) by (rule wf_same) simp_all
    show ?thesis
      using Cons g False m1 assms(2) [OF m1]
      by (simp add: game_required_game split: list.splits)
  qed
qed

lemma wf_run_command:
  "well_formed m \<Longrightarrow> well_formed (snd (run_command name m params sp u opp w))"
  by (erule wf_same) simp_all

lemma wf_quit_body:
  "well_formed m \<Longrightarrow> well_formed (snd (quit_body m params sp u opp w))"
  unfolding quit_body_eq Let_def
  by (auto intro: wf_same [of m] wf_filter [of m])

lemma wf_slackgammon: "well_formed m \<Longrightarrow> well_formed (snd (slackgammon env m txt sp))"
  unfolding slackgammon_def
  by (auto split: list.splits
        simp: help_def info_def move_def double_def roll_def accept_def redouble_def reject_def
          resign_def quit_def
        intro!: wf_new wf_game_required wf_run_command wf_quit_body)

lemma wf_foldl: "well_formed m \<Longrightarrow> well_formed (foldl step m rs)"
  by (induction rs arbitrary: m) (simp_all add: step_def wf_slackgammon)

lemma wf_reach: "well_formed (reach maxg rs)"
  unfolding reach_def by (rule wf_foldl) (rule wf_init)

lemma split_from_Nil_iff: "split_from word s = [] \<longleftrightarrow> word = [] \<and> (\<forall>c \<in> set s. isspace c)"
  by (induction s arbitrary: word) auto

lemma str_split_Nil_iff: "str_split s = [] \<longleftrightarrow> (\<forall>c \<in> set s. isspace c)"
  by (simp add: str_split_def split_from_Nil_iff)

lemma turn_required_handlers:
  "h \<in> {move, double, roll, resign} \<Longrightarrow> \<exists>name. h = game_required True (run_command name)"
  by (auto simp: move_def double_def roll_def resign_def)

lemma turn_free_handlers:
  "h \<in> {accept, redouble, reject} \<Longrightarrow> \<exists>name. h = game_required False (run_command name)"
  by (auto simp: accept_def redouble_def reject_def)

lemma reach_worker_valid:
  "games_of u (reach maxg rs) = (ps, w) # others \<Longrightarrow> w < length (procs (reach maxg rs))"
  using wf_reach [of maxg rs] games_of_head [of u "reach maxg rs" ps w others]
  by (auto simp: well_formed_def)

lemma quit_key:
  assumes "well_formed m" and "games_of u m = (ps, w) # others" and "ps \<noteq> (u, u)"
  shows "(if (u, if fst ps \<noteq> u then fst ps else snd ps) \<in> set (map fst (workers m))
          then (u, if fst ps \<noteq> u then fst ps else snd ps)
          else (if fst ps \<noteq> u then fst ps else snd ps, u)) = ps"
    and "ps \<in> set (map fst (workers m))"
proof -
  have in_ps: "in_players u ps" and mem: "(ps, w) \<in> set (workers m)"
    using games_of_head [OF assms(2)] by simp_all
  show key: "ps \<in> set (map fst (workers m))" using mem by force
  obtain a b where ps: "ps = (a, b)" by (cases ps)
  show "(if (u, if fst ps \<noteq> u then fst ps else snd ps) \<in> set (map fst (workers m))
          then (u, if fst ps \<noteq> u then fst ps else snd ps)
          else (if fst ps \<noteq> u then fst ps else snd ps, u)) = ps"
  proof (cases "a = u")
    case True
    then show ?thesis using key ps by simp
  next
    case False
    then have b: "b = u" using in_ps ps by (simp add: in_players_def)
    have "(u, a) \<notin> set (map fst (workers m))"
    proof
      assume "(u, a) \<in> set (map fst (workers m))"
      moreover have "(a, u) \<in> set (map fst (workers m))" using key ps b by simp
      ultimately have "u = a" using assms(1) unfolding well_formed_def by blast
      then show False using False by simp
    qed
    then show ?thesis using ps b False by simp
  qed
qed

lemma quit_body_key:
  assumes "(if (player, opponent) \<in> set (map fst (workers m))
            then (player, opponent) else (opponent, player)) = key"
    and "key \<in> set (map fst (workers m))"
  shows "quit_body m params sp player opponent w =
     (Inr (Response []),
      post ((snd (quit_of m w))\<lparr>workers := filter (\<lambda>(k, v). k \<noteq> key) (workers m)\<rparr>)
           (template_Quit player opponent) (channel_id sp))"
  unfolding quit_body_eq Let_def assms(1) using assms(2) by simp

lemma quit_eq:
  assumes "well_formed m" and "games_of (user_name sp) m = (ps, w) # others"
    and "ps \<noteq> (user_name sp, user_name sp)" and "str_split (reply m w) \<noteq> []"
  shows "quit m params sp =
     (Inr (Response []),
      post ((snd (quit_of (snd (command_of m w ''show turn'')) w))
              \<lparr>workers := filter (\<lambda>(k, v). k \<noteq> ps) (workers m)\<rparr>)
           (template_Quit (user_name sp) (if fst ps \<noteq> user_name sp then fst ps else snd ps))
           (channel_id sp))"
proof -
  let ?opp = "if fst ps \<noteq> user_name sp then fst ps else snd ps"
  let ?m1 = "snd (command_of m w ''show turn'')"
  obtain turn rest where t: "str_split (reply m w) = turn # rest"
    using assms(4) by (cases "str_split (reply m w)") auto
  have step1: "quit m params sp = quit_body ?m1 params sp (user_name sp) ?opp w"
    unfolding quit_def by (simp add: game_required_game [OF assms(2,3)] t)
  have key: "(if (user_name sp, ?opp) \<in> set (map fst (workers ?m1))
              then (user_name sp, ?opp) else (?opp, user_name sp)) = ps"
    using quit_key(1) [OF assms(1-3)] by simp
  have mem: "ps \<in> set (map fst (workers ?m1))"
    using quit_key(2) [OF assms(1-3)] by simp
  show ?thesis
    unfolding step1 quit_body_key [OF key mem] by simp
qed

lemma games_of_Nil_iff:
  "games_of u m = [] \<longleftrightarrow> \<not> list_ex (\<lambda>(ps, w). in_players u ps) (workers m)"
  by (auto simp: games_of_def list_ex_iff filter_empty_conv)

lemma new_results:
  "fst (new env m params sp) \<in>
     {Inr (HTTPServiceUnavailable ''Max game limit reached. Try again after a game has finished.''),
      Inr (HTTPForbidden ''You already have a game in progress.''),
      Inr (HTTPBadRequest ''You must challenge gnubg or an existing slack user (e.g. @austin)''),
      Inl OSError, Inr (Response [])}"
  by (simp add: new_def start_def Let_def case_prod_beta split: option.splits)

lemma challenged_of_cases:
  "challenged_of [] = Some ''gnubg''"
  "challenged_of (''gnubg'' # rest) = Some ''gnubg''"
  "challenged_of ((CHR ''@'' # name) # rest) = Some name"
  "p \<noteq> ''gnubg'' \<Longrightarrow> \<not> startswith p ''@'' \<Longrightarrow> challenged_of (p # rest) = None"
  by (simp_all add: challenged_of_def startswith_def)

lemma new_keeps_processes:
  assumes "i < length (procs m)"
  shows "procs (snd (new env m params sp)) ! i = procs m ! i"
proof -
  let ?conflict = "list_ex (\<lambda>(ps, w). in_players (user_name sp) ps) (workers m)"
  show ?thesis
  proof (cases "int (length (workers m)) = max_games m")
    case True
    then show ?thesis by (simp add: new_capacity)
  next
    case cap: False
    show ?thesis
    proof (cases ?conflict)
      case True
      then show ?thesis using cap by (simp add: new_conflict)
    next
      case free: False
      show ?thesis
      proof (cases "challenged_of params")
        case None
        then show ?thesis using cap free by (simp add: new_invalid)
      next
        case (Some c)
        show ?thesis
        proof (cases env)
          case None
          then show ?thesis using cap free Some by (simp add: new_launch_failed)
        next
          case (Some og)
          obtain out g where "og = (out, g)" by (cases og)
          then show ?thesis
            using new_started(5) [OF cap free \<open>challenged_of params = Some c\<close>, of out g] Some assms
            by simp
        qed
      qed
    qed
  qed
qed

lemma game_handlers:
  "h \<in> {move, roll, double, resign, accept, redouble, reject, quit} \<Longrightarrow>
     h = quit \<or> (\<exists>tr name. h = game_required tr (run_command name))"
  by (auto simp: move_def double_def roll_def resign_def accept_def redouble_def reject_def)

subsection \<open>Auto-retirement\<close>

text \<open>
  C1. A command whose second turn query reports that no game is active must end with the
  process terminated and the entry removed. On the run below \<^verbatim>\<open>max_games\<close> is 1, alice
  starts a game against gnubg and resigns, and the engine then answers the turn query with
  \<^verbatim>\<open>No game is being played.\<close> The process is sent \<^verbatim>\<open>quit\<close> and \<^verbatim>\<open>y\<close> and exits, but
  the entry of alice is still in \<^verbatim>\<open>workers\<close>: \<^verbatim>\<open>run_command\<close> has no
  \<^verbatim>\<open>del self.workers[key]\<close>, which \<^verbatim>\<open>quit\<close> has. Afterwards her \<^verbatim>\<open>quit\<close> raises
  \<^verbatim>\<open>IndexError\<close> on the empty answer of the dead process, and nobody can start a game.
\<close>

theorem auto_retirement_keeps_session:
  "workers (reach 1 [\<lparr>spawned = Some (lost_game, True), command_text = ''new'', slack = alice\<rparr>])
     = [((''alice'', ''gnubg''), 0)] \<and>
   fst (slackgammon None
         (reach 1 [\<lparr>spawned = Some (lost_game, True), command_text = ''new'', slack = alice\<rparr>])
         ''resign'' alice) = Inr (Response []) \<and>
   procs (reach 1 [\<lparr>spawned = Some (lost_game, True), command_text = ''new'', slack = alice\<rparr>,
                   \<lparr>spawned = None, command_text = ''resign'', slack = alice\<rparr>])
     = [\<lparr>stdin_written = [''set player 1 name alice\<newline>'', ''new game\<newline>'', ''show turn\<newline>'',
                           ''resign\<newline>'', ''show turn\<newline>'', ''quit\<newline>'', ''y\<newline>''],
         stdout = [], status = Exited, exits_in_grace = True\<rparr>] \<and>
   workers (reach 1 [\<lparr>spawned = Some (lost_game, True), command_text = ''new'', slack = alice\<rparr>,
                     \<lparr>spawned = None, command_text = ''resign'', slack = alice\<rparr>])
     = [((''alice'', ''gnubg''), 0)] \<and>
   fst (slackgammon None
         (reach 1 [\<lparr>spawned = Some (lost_game, True), command_text = ''new'', slack = alice\<rparr>,
                   \<lparr>spawned = None, command_text = ''resign'', slack = alice\<rparr>])
         ''quit'' alice) = Inl IndexError \<and>
   fst (slackgammon (Some (lost_game, True))
         (reach 1 [\<lparr>spawned = Some (lost_game, True), command_text = ''new'', slack = alice\<rparr>,
                   \<lparr>spawned = None, command_text = ''resign'', slack = alice\<rparr>])
         ''new'' bob)
     = Inr (HTTPServiceUnavailable ''Max game limit reached. Try again after a game has finished.'')"
  by code_simp

subsection \<open>Participants and sessions\<close>

text \<open>
  Against C2 as stated: the identity gnubg takes part in two sessions at once, and so
  does a person who is challenged twice.
\<close>

theorem participant_in_two_sessions:
  "games_of ''gnubg''
     (reach 2 [\<lparr>spawned = Some ([], True), command_text = ''new'', slack = alice\<rparr>,
               \<lparr>spawned = Some ([], True), command_text = ''new gnubg'', slack = bob\<rparr>])
     = [((''alice'', ''gnubg''), 0), ((''bob'', ''gnubg''), 1)] \<and>
   games_of ''bob''
     (reach 2 [\<lparr>spawned = Some ([], True), command_text = ''new @bob'', slack = alice\<rparr>,
               \<lparr>spawned = Some ([], True), command_text = ''new @bob'', slack = carol\<rparr>])
     = [((''alice'', ''bob''), 0), ((''carol'', ''bob''), 1)]"
  by code_simp

text \<open>
  C2, as the code has it. In every state the manager reaches, no two entries have the
  same first player (the one who started the game), and \<^verbatim>\<open>new\<close> from a caller who is in
  some entry, on either side, changes nothing. The second player of an entry is not
  constrained here.
\<close>

theorem first_players_unique:
  "distinct (map (fst \<circ> fst) (workers (reach maxg rs))) \<and>
   (games_of (user_name sp) (reach maxg rs) \<noteq> [] \<longrightarrow>
      snd (new env (reach maxg rs) params sp) = reach maxg rs)"
proof -
  have "distinct (map (fst \<circ> fst) (workers (reach maxg rs)))"
    using wf_reach [of maxg rs] by (simp add: well_formed_def)
  moreover have "snd (new env (reach maxg rs) params sp) = reach maxg rs"
    if "games_of (user_name sp) (reach maxg rs) \<noteq> []"
  proof -
    have "list_ex (\<lambda>(ps, w). in_players (user_name sp) ps) (workers (reach maxg rs))"
      using that by (auto simp: games_of_def list_ex_iff filter_empty_conv)
    then show ?thesis
      by (cases "int (length (workers (reach maxg rs))) = max_games (reach maxg rs)")
         (simp_all add: new_capacity new_conflict)
  qed
  ultimately show ?thesis by blast
qed

theorem first_players_unique_witness:
  "games_of ''alice'' (reach 2 [\<lparr>spawned = Some ([], True), command_text = ''new'', slack = alice\<rparr>])
     = [((''alice'', ''gnubg''), 0)] \<and>
   distinct (map (fst \<circ> fst)
     (workers (reach 2 [\<lparr>spawned = Some ([], True), command_text = ''new'', slack = alice\<rparr>]))) \<and>
   snd (new (Some ([], True))
          (reach 2 [\<lparr>spawned = Some ([], True), command_text = ''new'', slack = alice\<rparr>])
          [''@bob''] alice)
     = reach 2 [\<lparr>spawned = Some ([], True), command_text = ''new'', slack = alice\<rparr>]"
proof -
  have g: "games_of ''alice'' (reach 2 [\<lparr>spawned = Some ([], True), command_text = ''new'', slack = alice\<rparr>])
     = [((''alice'', ''gnubg''), 0)]"
    by code_simp
  have u: "user_name alice = ''alice''" by (simp add: alice_def)
  show ?thesis
    using first_players_unique
      [of 2 "[\<lparr>spawned = Some ([], True), command_text = ''new'', slack = alice\<rparr>]" alice
          "Some ([], True)" "[''@bob'']"] g
    by (simp add: u)
qed

subsection \<open>Commands out of turn\<close>

text \<open>
  Against C3 as stated: a \<^verbatim>\<open>move\<close> out of turn is refused, and the engine has been
  sent one line, the turn query.
\<close>

theorem wrong_turn_writes_turn_query:
  "stdin_written (procs (reach 1 [\<lparr>spawned = Some (bobs_turn, True), command_text = ''new @bob'', slack = alice\<rparr>]) ! 0)
     = [''set player 1 name alice\<newline>'', ''set player 0 human\<newline>'', ''set player 0 name bob\<newline>'',
        ''new game\<newline>''] \<and>
   fst (slackgammon None
         (reach 1 [\<lparr>spawned = Some (bobs_turn, True), command_text = ''new @bob'', slack = alice\<rparr>])
         ''move 24 18'' alice) = Inr (HTTPForbidden ''It's not your turn!'') \<and>
   stdin_written (procs (snd (slackgammon None
         (reach 1 [\<lparr>spawned = Some (bobs_turn, True), command_text = ''new @bob'', slack = alice\<rparr>])
         ''move 24 18'' alice)) ! 0)
     = [''set player 1 name alice\<newline>'', ''set player 0 human\<newline>'', ''set player 0 name bob\<newline>'',
        ''new game\<newline>'', ''show turn\<newline>'']"
  by code_simp

text \<open>
  C3, as the code has it. For \<^verbatim>\<open>move\<close>, \<^verbatim>\<open>double\<close>, \<^verbatim>\<open>roll\<close> and \<^verbatim>\<open>resign\<close>, in a state
  the manager reaches: when the caller has a game against somebody else and the first
  token of the engine's answer to the turn query is not the caller's name, the result is
  \<^verbatim>\<open>HTTPForbidden\<close> with the text \<^verbatim>\<open>It's not your turn!\<close>, the only line written to the
  engine is the turn query \<^verbatim>\<open>show turn\<close>, the process keeps its status, the other
  processes and the dictionary are untouched and nothing is posted.
\<close>

theorem wrong_turn_forbidden:
  assumes "m = reach maxg rs"
    and "h \<in> {move, double, roll, resign}"
    and "games_of (user_name sp) m = (ps, w) # others"
    and "ps \<noteq> (user_name sp, user_name sp)"
    and "str_split (reply m w) = turn # rest"
    and "turn \<noteq> user_name sp"
  shows "fst (h m params sp) = Inr (HTTPForbidden ''It's not your turn!'') \<and>
         workers (snd (h m params sp)) = workers m \<and>
         posted (snd (h m params sp)) = posted m \<and>
         stdin_written (procs (snd (h m params sp)) ! w) = stdin_written (procs m ! w) @ [''show turn\<newline>''] \<and>
         status (procs (snd (h m params sp)) ! w) = status (procs m ! w) \<and>
         (\<forall>i. i \<noteq> w \<longrightarrow> procs (snd (h m params sp)) ! i = procs m ! i)"
proof -
  obtain name where h: "h = game_required True (run_command name)"
    using turn_required_handlers [OF assms(2)] by blast
  have w: "w < length (procs m)"
    using reach_worker_valid assms(1,3) by blast
  have "h m params sp =
          (Inr (HTTPForbidden ''It's not your turn!''), snd (command_of m w ''show turn''))"
    unfolding h using assms(5,6) by (simp add: game_required_game [OF assms(3,4)])
  then show ?thesis using w by simp
qed

theorem wrong_turn_forbidden_witness:
  "games_of ''alice'' (reach 1 [\<lparr>spawned = Some (bobs_turn, True), command_text = ''new @bob'', slack = alice\<rparr>])
     = [((''alice'', ''bob''), 0)] \<and>
   str_split (reply (reach 1 [\<lparr>spawned = Some (bobs_turn, True), command_text = ''new @bob'', slack = alice\<rparr>]) 0)
     = [''bob'', ''is'', ''on'', ''roll.''] \<and>
   fst (move (reach 1 [\<lparr>spawned = Some (bobs_turn, True), command_text = ''new @bob'', slack = alice\<rparr>])
          [''24'', ''18''] alice) = Inr (HTTPForbidden ''It's not your turn!'') \<and>
   stdin_written (procs (snd (move
          (reach 1 [\<lparr>spawned = Some (bobs_turn, True), command_text = ''new @bob'', slack = alice\<rparr>])
          [''24'', ''18''] alice)) ! 0)
     = stdin_written (procs (reach 1 [\<lparr>spawned = Some (bobs_turn, True), command_text = ''new @bob'', slack = alice\<rparr>]) ! 0)
       @ [''show turn\<newline>'']"
proof -
  let ?m = "reach 1 [\<lparr>spawned = Some (bobs_turn, True), command_text = ''new @bob'', slack = alice\<rparr>]"
  have u: "user_name alice = ''alice''" by (simp add: alice_def)
  have g: "games_of (user_name alice) ?m = ((''alice'', ''bob''), 0) # []"
    by code_simp
  have t: "str_split (reply ?m 0) = ''bob'' # [''is'', ''on'', ''roll.'']"
    by code_simp
  have "move \<in> {move, double, roll, resign}" by simp
  from wrong_turn_forbidden [OF refl this g _ t, of "[''24'', ''18'']"] g t
  show ?thesis by (simp add: u)
qed

subsection \<open>Quit\<close>

text \<open>
  Against C4 as stated: \<^verbatim>\<open>quit\<close> sends the turn query before the quit sequence.
\<close>

theorem quit_queries_turn:
  "stdin_written (procs (reach 1 [\<lparr>spawned = Some (bobs_turn, True), command_text = ''new @bob'', slack = alice\<rparr>]) ! 0)
     = [''set player 1 name alice\<newline>'', ''set player 0 human\<newline>'', ''set player 0 name bob\<newline>'',
        ''new game\<newline>''] \<and>
   fst (slackgammon None
         (reach 1 [\<lparr>spawned = Some (bobs_turn, True), command_text = ''new @bob'', slack = alice\<rparr>])
         ''quit'' alice) = Inr (Response []) \<and>
   stdin_written (procs (snd (slackgammon None
         (reach 1 [\<lparr>spawned = Some (bobs_turn, True), command_text = ''new @bob'', slack = alice\<rparr>])
         ''quit'' alice)) ! 0)
     = [''set player 1 name alice\<newline>'', ''set player 0 human\<newline>'', ''set player 0 name bob\<newline>'',
        ''new game\<newline>'', ''show turn\<newline>'', ''quit\<newline>'', ''y\<newline>'']"
  by code_simp

text \<open>
  C4, as the code has it. In a state the manager reaches, for a caller who has a game
  against somebody else, as first or as second player, and an engine that answers the turn
  query with at least one token: \<^verbatim>\<open>quit\<close> returns \<^verbatim>\<open>web.Response()\<close> whoever is on turn,
  the engine receives the turn query and then \<^verbatim>\<open>quit\<close> and \<^verbatim>\<open>y\<close>, the process is no
  longer running, the entry found for the caller is removed from the dictionary, and the
  quit message naming both players is posted to the caller's channel.
\<close>

theorem quit_terminates_and_removes:
  assumes "m = reach maxg rs"
    and "games_of (user_name sp) m = (ps, w) # others"
    and "ps \<noteq> (user_name sp, user_name sp)"
    and "str_split (reply m w) \<noteq> []"
  shows "fst (quit m params sp) = Inr (Response []) \<and>
         workers (snd (quit m params sp)) = filter (\<lambda>(k, v). k \<noteq> ps) (workers m) \<and>
         ps \<notin> set (map fst (workers (snd (quit m params sp)))) \<and>
         status (procs (snd (quit m params sp)) ! w) \<noteq> Running \<and>
         stdin_written (procs (snd (quit m params sp)) ! w)
           = stdin_written (procs m ! w) @ [''show turn\<newline>'', ''quit\<newline>'', ''y\<newline>''] \<and>
         posted (snd (quit m params sp))
           = posted m @ [(template_Quit (user_name sp) (if fst ps \<noteq> user_name sp then fst ps else snd ps),
                          channel_id sp)]"
proof -
  have wf: "well_formed m" using assms(1) wf_reach by simp
  have w: "w < length (procs m)"
    using reach_worker_valid assms(1,2) by blast
  show ?thesis
    unfolding quit_eq [OF wf assms(2-4)] using w by auto
qed

theorem quit_terminates_and_removes_witness:
  "games_of ''bob'' (reach 1 [\<lparr>spawned = Some (bobs_turn, False), command_text = ''new @bob'', slack = alice\<rparr>])
     = [((''alice'', ''bob''), 0)] \<and>
   str_split (reply (reach 1 [\<lparr>spawned = Some (bobs_turn, False), command_text = ''new @bob'', slack = alice\<rparr>]) 0)
     = [''bob'', ''is'', ''on'', ''roll.''] \<and>
   fst (quit (reach 1 [\<lparr>spawned = Some (bobs_turn, False), command_text = ''new @bob'', slack = alice\<rparr>]) [] bob)
     = Inr (Response []) \<and>
   workers (snd (quit (reach 1 [\<lparr>spawned = Some (bobs_turn, False), command_text = ''new @bob'', slack = alice\<rparr>]) [] bob))
     = [] \<and>
   status (procs (snd (quit (reach 1 [\<lparr>spawned = Some (bobs_turn, False), command_text = ''new @bob'', slack = alice\<rparr>]) [] bob)) ! 0)
     = Killed \<and>
   posted (snd (quit (reach 1 [\<lparr>spawned = Some (bobs_turn, False), command_text = ''new @bob'', slack = alice\<rparr>]) [] bob))
     = posted (reach 1 [\<lparr>spawned = Some (bobs_turn, False), command_text = ''new @bob'', slack = alice\<rparr>])
       @ [(''bob quit game against alice'', ''C1'')]"
proof -
  let ?m = "reach 1 [\<lparr>spawned = Some (bobs_turn, False), command_text = ''new @bob'', slack = alice\<rparr>]"
  have u: "user_name bob = ''bob''" "channel_id bob = ''C1''" by (simp_all add: bob_def)
  have g: "games_of (user_name bob) ?m = ((''alice'', ''bob''), 0) # []"
    by code_simp
  have t: "str_split (reply ?m 0) = [''bob'', ''is'', ''on'', ''roll.'']"
    by code_simp
  have ws: "workers ?m = [((''alice'', ''bob''), 0)]"
    by code_simp
  have k: "status (procs (snd (quit ?m [] bob)) ! 0) = Killed"
    by code_simp
  from quit_terminates_and_removes [OF refl g, of "[]"] g t ws k
  show ?thesis by (simp add: u template_Quit_def)
qed

subsection \<open>New games\<close>

text \<open>
  Against C5 as stated: with \<^verbatim>\<open>max_games\<close> 1, a caller who already has a game gets the
  capacity error, not the conflict error.
\<close>

theorem conflict_masked_by_capacity:
  "games_of ''alice'' (reach 1 [\<lparr>spawned = Some ([], True), command_text = ''new'', slack = alice\<rparr>])
     = [((''alice'', ''gnubg''), 0)] \<and>
   fst (slackgammon (Some ([], True))
         (reach 1 [\<lparr>spawned = Some ([], True), command_text = ''new'', slack = alice\<rparr>])
         ''new @bob'' alice)
     = Inr (HTTPServiceUnavailable ''Max game limit reached. Try again after a game has finished.'')"
  by code_simp

text \<open>
  C5, as the code has it. \<^verbatim>\<open>new\<close> answers \<^verbatim>\<open>HTTPServiceUnavailable\<close> exactly when the
  number of entries equals \<^verbatim>\<open>max_games\<close>; it answers \<^verbatim>\<open>HTTPForbidden\<close> exactly when that
  is not so and the caller is in some entry. Neither depends on the parameters or on the
  spawn, and in both cases the manager is unchanged.
\<close>

theorem new_capacity_before_conflict:
  "(fst (new env m params sp)
      = Inr (HTTPServiceUnavailable ''Max game limit reached. Try again after a game has finished.'')
    \<longleftrightarrow> int (length (workers m)) = max_games m) \<and>
   (fst (new env m params sp) = Inr (HTTPForbidden ''You already have a game in progress.'')
    \<longleftrightarrow> int (length (workers m)) \<noteq> max_games m \<and> games_of (user_name sp) m \<noteq> []) \<and>
   (int (length (workers m)) = max_games m \<or> games_of (user_name sp) m \<noteq> []
    \<longrightarrow> snd (new env m params sp) = m)"
proof (cases "int (length (workers m)) = max_games m")
  case True
  then show ?thesis by (simp add: new_capacity)
next
  case cap: False
  show ?thesis
  proof (cases "games_of (user_name sp) m = []")
    case False
    then have "list_ex (\<lambda>(ps, w). in_players (user_name sp) ps) (workers m)"
      by (simp add: games_of_Nil_iff)
    then show ?thesis using cap False by (simp add: new_conflict)
  next
    case True
    then have "\<not> list_ex (\<lambda>(ps, w). in_players (user_name sp) ps) (workers m)"
      by (simp add: games_of_Nil_iff)
    then show ?thesis using cap True
      by (simp add: new_def start_def Let_def case_prod_beta split: option.splits)
  qed
qed

theorem new_capacity_before_conflict_witness:
  "games_of ''alice'' (reach 2 [\<lparr>spawned = Some ([], True), command_text = ''new'', slack = alice\<rparr>])
     = [((''alice'', ''gnubg''), 0)] \<and>
   new None (reach 2 [\<lparr>spawned = Some ([], True), command_text = ''new'', slack = alice\<rparr>])
       [''nobody''] alice
     = (Inr (HTTPForbidden ''You already have a game in progress.''),
        reach 2 [\<lparr>spawned = Some ([], True), command_text = ''new'', slack = alice\<rparr>])"
proof -
  let ?m = "reach 2 [\<lparr>spawned = Some ([], True), command_text = ''new'', slack = alice\<rparr>]"
  have u: "user_name alice = ''alice''" by (simp add: alice_def)
  have g: "games_of ''alice'' ?m = [((''alice'', ''gnubg''), 0)]"
    by code_simp
  have n: "int (length (workers ?m)) \<noteq> max_games ?m"
    by code_simp
  from new_capacity_before_conflict [of None ?m "[''nobody'']" alice] g n
  show ?thesis by (simp add: u prod_eq_iff)
qed

text \<open>
  C6. When \<^verbatim>\<open>new\<close> is neither at capacity nor in conflict: without parameters, or with
  \<^verbatim>\<open>gnubg\<close> as first parameter, the opponent is gnubg; with a first parameter \<^verbatim>\<open>@name\<close>
  the opponent is \<open>name\<close>; in both cases, once the process has started, the entry of
  caller and opponent is appended and \<^verbatim>\<open>web.Response()\<close> returned. Any other first
  parameter gives \<^verbatim>\<open>HTTPBadRequest\<close> and leaves the manager as it was: no process, no
  entry.
\<close>

theorem new_resolves_opponent:
  assumes "int (length (workers m)) \<noteq> max_games m"
    and "games_of (user_name sp) m = []"
  shows "(params = [] \<or> hd params = ''gnubg'' \<longrightarrow>
            fst (new (Some (out, g)) m params sp) = Inr (Response []) \<and>
            workers (snd (new (Some (out, g)) m params sp))
              = workers m @ [((user_name sp, ''gnubg''), length (procs m))]) \<and>
         (params \<noteq> [] \<and> hd params = CHR ''@'' # name \<longrightarrow>
            fst (new (Some (out, g)) m params sp) = Inr (Response []) \<and>
            workers (snd (new (Some (out, g)) m params sp))
              = workers m @ [((user_name sp, name), length (procs m))]) \<and>
         (params \<noteq> [] \<and> hd params \<noteq> ''gnubg'' \<and> \<not> startswith (hd params) ''@'' \<longrightarrow>
            new env m params sp
              = (Inr (HTTPBadRequest ''You must challenge gnubg or an existing slack user (e.g. @austin)''), m))"
proof -
  have free: "\<not> list_ex (\<lambda>(ps, w). in_players (user_name sp) ps) (workers m)"
    using assms(2) by (simp add: games_of_Nil_iff)
  note started = new_started(1,2) [OF assms(1) free]
  show ?thesis
  proof (cases params)
    case Nil
    then show ?thesis using started [of params "''gnubg''" out g]
      by (simp add: challenged_of_cases)
  next
    case (Cons p rest)
    consider (ai) "p = ''gnubg''" | (human) n where "p = CHR ''@'' # n"
      | (other) "p \<noteq> ''gnubg''" "\<not> startswith p ''@''"
      by (cases p) (auto simp: startswith_def)
    then show ?thesis
    proof cases
      case ai
      then show ?thesis using Cons started [of params "''gnubg''" out g]
        by (simp add: challenged_of_cases startswith_def)
    next
      case human
      then show ?thesis using Cons started [of params n out g]
        by (auto simp: challenged_of_cases startswith_def)
    next
      case other
      then show ?thesis using Cons new_invalid [OF assms(1) free, of params env]
        by (auto simp: challenged_of_cases startswith_def)
    qed
  qed
qed

theorem new_resolves_opponent_witness:
  "games_of ''bob'' (reach 2 [\<lparr>spawned = Some ([], True), command_text = ''new'', slack = alice\<rparr>]) = [] \<and>
   workers (snd (new (Some ([], True))
                   (reach 2 [\<lparr>spawned = Some ([], True), command_text = ''new'', slack = alice\<rparr>]) [] bob))
     = [((''alice'', ''gnubg''), 0), ((''bob'', ''gnubg''), 1)] \<and>
   workers (snd (new (Some ([], True))
                   (reach 2 [\<lparr>spawned = Some ([], True), command_text = ''new'', slack = alice\<rparr>])
                   [''@carol''] bob))
     = [((''alice'', ''gnubg''), 0), ((''bob'', ''carol''), 1)] \<and>
   new (Some ([], True)) (reach 2 [\<lparr>spawned = Some ([], True), command_text = ''new'', slack = alice\<rparr>])
       [''carol''] bob
     = (Inr (HTTPBadRequest ''You must challenge gnubg or an existing slack user (e.g. @austin)''),
        reach 2 [\<lparr>spawned = Some ([], True), command_text = ''new'', slack = alice\<rparr>])"
proof -
  let ?m = "reach 2 [\<lparr>spawned = Some ([], True), command_text = ''new'', slack = alice\<rparr>]"
  have u: "user_name bob = ''bob''" by (simp add: bob_def)
  have g: "games_of (user_name bob) ?m = []"
    by code_simp
  have n: "int (length (workers ?m)) \<noteq> max_games ?m"
    by code_simp
  have ws: "workers ?m = [((''alice'', ''gnubg''), 0)]" "length (procs ?m) = 1"
    by code_simp+
  from new_resolves_opponent [OF n g, of "[]" "[]" True "''carol''" "Some ([], True)"]
    new_resolves_opponent [OF n g, of "[''@carol'']" "[]" True "''carol''" "Some ([], True)"]
    new_resolves_opponent [OF n g, of "[''carol'']" "[]" True "''carol''" "Some ([], True)"]
    g ws
  show ?thesis by (simp add: u startswith_def)
qed

subsection \<open>The turn policy\<close>

text \<open>
  Against C7 as stated: \<^verbatim>\<open>new\<close> does look the caller up in the sessions. In the same
  state it refuses alice, who has a game, and serves bob, who has none.
\<close>

theorem new_checks_membership:
  "workers (reach 2 [\<lparr>spawned = Some ([], True), command_text = ''new'', slack = alice\<rparr>])
     = [((''alice'', ''gnubg''), 0)] \<and>
   fst (slackgammon (Some ([], True))
         (reach 2 [\<lparr>spawned = Some ([], True), command_text = ''new'', slack = alice\<rparr>])
         ''new'' alice)
     = Inr (HTTPForbidden ''You already have a game in progress.'') \<and>
   fst (slackgammon (Some ([], True))
         (reach 2 [\<lparr>spawned = Some ([], True), command_text = ''new'', slack = alice\<rparr>])
         ''new'' bob)
     = Inr (Response [])"
  by code_simp

text \<open>
  C7, as the code has it. The eight game commands answer
  \<^verbatim>\<open>You do not have a game in progress.\<close> to a caller without a game. For a caller with a
  game against somebody else and an engine that names \<open>turn\<close> as the side to act: \<^verbatim>\<open>move\<close>,
  \<^verbatim>\<open>roll\<close>, \<^verbatim>\<open>double\<close> and \<^verbatim>\<open>resign\<close> answer \<^verbatim>\<open>It's not your turn!\<close> exactly when
  \<open>turn\<close> is not the caller; \<^verbatim>\<open>accept\<close>, \<^verbatim>\<open>redouble\<close> and \<^verbatim>\<open>reject\<close> run whoever is on turn,
  and \<^verbatim>\<open>quit\<close> never gives that answer. \<^verbatim>\<open>help\<close> and \<^verbatim>\<open>info\<close> do not depend on the caller
  at all and change nothing. \<^verbatim>\<open>new\<close> gives neither of the two answers and sends nothing
  to the processes that exist, so no turn query; what it does with a caller who is in a
  game is the subject of C5.
\<close>

theorem turn_policy:
  "(h \<in> {move, roll, double, resign, accept, redouble, reject, quit} \<and>
      games_of (user_name sp) m = [] \<longrightarrow>
        h m params sp = (Inr (HTTPForbidden ''You do not have a game in progress.''), m)) \<and>
   (h \<in> {move, roll, double, resign} \<and> games_of (user_name sp) m = (ps, w) # others \<and>
      ps \<noteq> (user_name sp, user_name sp) \<and> str_split (reply m w) = turn # rest \<longrightarrow>
        (fst (h m params sp) = Inr (HTTPForbidden ''It's not your turn!'') \<longleftrightarrow> turn \<noteq> user_name sp)) \<and>
   (h \<in> {accept, redouble, reject} \<and> games_of (user_name sp) m = (ps, w) # others \<and>
      ps \<noteq> (user_name sp, user_name sp) \<and> str_split (reply m w) = turn # rest \<longrightarrow>
        fst (h m params sp) = Inr (Response [])) \<and>
   (games_of (user_name sp) m = (ps, w) # others \<and>
      ps \<noteq> (user_name sp, user_name sp) \<and> str_split (reply m w) = turn # rest \<longrightarrow>
        fst (quit m params sp) \<noteq> Inr (HTTPForbidden ''It's not your turn!'')) \<and>
   (h \<in> {help, info} \<longrightarrow>
        h m params sp = h m params' sp' \<and> snd (h m params sp) = m) \<and>
   fst (new env m params sp) \<noteq> Inr (HTTPForbidden ''You do not have a game in progress.'') \<and>
   fst (new env m params sp) \<noteq> Inr (HTTPForbidden ''It's not your turn!'') \<and>
   (\<forall>i < length (procs m). procs (snd (new env m params sp)) ! i = procs m ! i)"
proof (intro conjI impI; (elim conjE)?)
  assume "h \<in> {move, roll, double, resign, accept, redouble, reject, quit}"
    and "games_of (user_name sp) m = []"
  then show "h m params sp = (Inr (HTTPForbidden ''You do not have a game in progress.''), m)"
    by (auto simp: move_def roll_def double_def resign_def accept_def redouble_def reject_def
          quit_def game_required_no_game)
next
  assume h: "h \<in> {move, roll, double, resign}"
    and g: "games_of (user_name sp) m = (ps, w) # others" "ps \<noteq> (user_name sp, user_name sp)"
    and t: "str_split (reply m w) = turn # rest"
  from h obtain name where "h = game_required True (run_command name)"
    using turn_required_handlers [of h] by auto
  then show "fst (h m params sp) = Inr (HTTPForbidden ''It's not your turn!'') \<longleftrightarrow> turn \<noteq> user_name sp"
    using t by (simp add: game_required_game [OF g])
next
  assume h: "h \<in> {accept, redouble, reject}"
    and g: "games_of (user_name sp) m = (ps, w) # others" "ps \<noteq> (user_name sp, user_name sp)"
    and t: "str_split (reply m w) = turn # rest"
  from h obtain name where "h = game_required False (run_command name)"
    using turn_free_handlers [of h] by auto
  then show "fst (h m params sp) = Inr (Response [])"
    using t by (simp add: game_required_game [OF g])
next
  assume g: "games_of (user_name sp) m = (ps, w) # others" "ps \<noteq> (user_name sp, user_name sp)"
    and t: "str_split (reply m w) = turn # rest"
  show "fst (quit m params sp) \<noteq> Inr (HTTPForbidden ''It's not your turn!'')"
    using t by (simp add: quit_def game_required_game [OF g] quit_body_eq Let_def)
next
  assume "h \<in> {help, info}"
  then show "h m params sp = h m params' sp'"
    by (auto simp: help_def info_def Let_def)
next
  assume "h \<in> {help, info}"
  then show "snd (h m params sp) = m"
    by (auto simp: help_def info_def Let_def)
next
  show "fst (new env m params sp) \<noteq> Inr (HTTPForbidden ''You do not have a game in progress.'')"
    using new_results [of env m params sp] by auto
next
  show "fst (new env m params sp) \<noteq> Inr (HTTPForbidden ''It's not your turn!'')"
    using new_results [of env m params sp] by auto
next
  show "\<forall>i < length (procs m). procs (snd (new env m params sp)) ! i = procs m ! i"
    using new_keeps_processes [of _ m env params sp] by simp
qed

theorem turn_policy_witness:
  "move (init 1) [''24'', ''18''] alice
     = (Inr (HTTPForbidden ''You do not have a game in progress.''), init 1) \<and>
   games_of ''alice'' (reach 1 [\<lparr>spawned = Some (bobs_turn, True), command_text = ''new @bob'', slack = alice\<rparr>])
     = [((''alice'', ''bob''), 0)] \<and>
   str_split (reply (reach 1 [\<lparr>spawned = Some (bobs_turn, True), command_text = ''new @bob'', slack = alice\<rparr>]) 0)
     = [''bob'', ''is'', ''on'', ''roll.''] \<and>
   fst (roll (reach 1 [\<lparr>spawned = Some (bobs_turn, True), command_text = ''new @bob'', slack = alice\<rparr>]) [] alice)
     = Inr (HTTPForbidden ''It's not your turn!'') \<and>
   fst (accept (reach 1 [\<lparr>spawned = Some (bobs_turn, True), command_text = ''new @bob'', slack = alice\<rparr>]) [] alice)
     = Inr (Response []) \<and>
   fst (quit (reach 1 [\<lparr>spawned = Some (bobs_turn, True), command_text = ''new @bob'', slack = alice\<rparr>]) [] alice)
     \<noteq> Inr (HTTPForbidden ''It's not your turn!'') \<and>
   info (reach 1 [\<lparr>spawned = Some (bobs_turn, True), command_text = ''new @bob'', slack = alice\<rparr>]) [] carol
     = info (reach 1 [\<lparr>spawned = Some (bobs_turn, True), command_text = ''new @bob'', slack = alice\<rparr>]) [] alice"
proof -
  let ?m = "reach 1 [\<lparr>spawned = Some (bobs_turn, True), command_text = ''new @bob'', slack = alice\<rparr>]"
  have u: "user_name alice = ''alice''" by (simp add: alice_def)
  have g0: "games_of (user_name alice) (init 1) = []"
    by code_simp
  have g: "games_of (user_name alice) ?m = ((''alice'', ''bob''), 0) # []"
    by code_simp
  have t: "str_split (reply ?m 0) = ''bob'' # [''is'', ''on'', ''roll.'']"
    by code_simp
  from turn_policy [where h = move and sp = alice and m = "init 1" and params = "[''24'', ''18'']"] g0
  have 1: "move (init 1) [''24'', ''18''] alice
     = (Inr (HTTPForbidden ''You do not have a game in progress.''), init 1)"
    by simp
  from turn_policy [where h = roll and sp = alice and m = ?m and params = "[]"
      and ps = "(''alice'', ''bob'')" and w = 0 and others = "[]" and turn = "''bob''"
      and rest = "[''is'', ''on'', ''roll.'']"] g t
  have 2: "fst (roll ?m [] alice) = Inr (HTTPForbidden ''It's not your turn!'')"
    by (simp add: u)
  from turn_policy [where h = accept and sp = alice and m = ?m and params = "[]"
      and ps = "(''alice'', ''bob'')" and w = 0 and others = "[]" and turn = "''bob''"
      and rest = "[''is'', ''on'', ''roll.'']"] g t
  have 3: "fst (accept ?m [] alice) = Inr (Response [])"
    by (simp add: u)
  from turn_policy [where h = accept and sp = alice and m = ?m and params = "[]"
      and ps = "(''alice'', ''bob'')" and w = 0 and others = "[]" and turn = "''bob''"
      and rest = "[''is'', ''on'', ''roll.'']"] g t
  have 4: "fst (quit ?m [] alice) \<noteq> Inr (HTTPForbidden ''It's not your turn!'')"
    by (simp add: u)
  from turn_policy [where h = info and sp = carol and m = ?m and params = "[]"
      and params' = "[]" and sp' = alice]
  have 5: "info ?m [] carol = info ?m [] alice"
    by simp
  from 1 2 3 4 5 g t show ?thesis by (simp add: u)
qed

text \<open>
  C10. In a state the manager reaches, for each of the eight game commands and a caller
  who has a game: when the engine's answer to the turn query is empty or all whitespace
  the command raises. If the game is against somebody else, it raises \<^verbatim>\<open>IndexError\<close>
  exactly in that case, and returns a response whenever the answer has a token.
\<close>

theorem turn_token_partial:
  assumes "m = reach maxg rs"
    and "h \<in> {move, roll, double, resign, accept, redouble, reject, quit}"
    and "games_of (user_name sp) m = (ps, w) # others"
  shows "((\<forall>c \<in> set (reply m w). isspace c) \<longrightarrow> (\<exists>e. fst (h m params sp) = Inl e)) \<and>
         (ps \<noteq> (user_name sp, user_name sp) \<longrightarrow>
            (fst (h m params sp) = Inl IndexError \<longleftrightarrow> (\<forall>c \<in> set (reply m w). isspace c)) \<and>
            ((\<exists>c \<in> set (reply m w). \<not> isspace c) \<longrightarrow> (\<exists>r. fst (h m params sp) = Inr r)))"
proof (cases "ps = (user_name sp, user_name sp)")
  case True
  have "game_required tr f m params sp = (Inl StopIteration, m)" for tr f
    using assms(3) True by (simp add: game_required_self)
  then have "fst (h m params sp) = Inl StopIteration"
    using game_handlers [OF assms(2)] by (auto simp: quit_def)
  then show ?thesis using True by simp
next
  case False
  have wf: "well_formed m" using assms(1) wf_reach by simp
  show ?thesis
  proof (cases "str_split (reply m w)")
    case Nil
    then have ws: "\<forall>c \<in> set (reply m w). isspace c" by (simp add: str_split_Nil_iff)
    have "fst (game_required tr f m params sp) = Inl IndexError" for tr f
      using Nil by (simp add: game_required_game [OF assms(3) False])
    then have "fst (h m params sp) = Inl IndexError"
      using game_handlers [OF assms(2)] by (auto simp: quit_def)
    then show ?thesis using ws by simp
  next
    case (Cons turn rest)
    then have nws: "\<not> (\<forall>c \<in> set (reply m w). isspace c)"
      using str_split_Nil_iff [of "reply m w"] by simp
    have "\<exists>r. fst (game_required tr (run_command name) m params sp) = Inr r" for tr name
      using Cons by (simp add: game_required_game [OF assms(3) False])
    moreover have "\<exists>r. fst (quit m params sp) = Inr r"
      using quit_eq [OF wf assms(3) False, of params] Cons by simp
    ultimately have "\<exists>r. fst (h m params sp) = Inr r"
      using game_handlers [OF assms(2)] by auto
    then show ?thesis using nws by auto
  qed
qed

theorem turn_token_partial_witness:
  "games_of ''alice''
     (reach 1 [\<lparr>spawned = Some (lost_game, True), command_text = ''new'', slack = alice\<rparr>,
               \<lparr>spawned = None, command_text = ''resign'', slack = alice\<rparr>])
     = [((''alice'', ''gnubg''), 0)] \<and>
   reply (reach 1 [\<lparr>spawned = Some (lost_game, True), command_text = ''new'', slack = alice\<rparr>,
                   \<lparr>spawned = None, command_text = ''resign'', slack = alice\<rparr>]) 0 = [] \<and>
   fst (quit (reach 1 [\<lparr>spawned = Some (lost_game, True), command_text = ''new'', slack = alice\<rparr>,
                       \<lparr>spawned = None, command_text = ''resign'', slack = alice\<rparr>]) [] alice)
     = Inl IndexError"
proof -
  let ?m = "reach 1 [\<lparr>spawned = Some (lost_game, True), command_text = ''new'', slack = alice\<rparr>,
                     \<lparr>spawned = None, command_text = ''resign'', slack = alice\<rparr>]"
  have u: "user_name alice = ''alice''" by (simp add: alice_def)
  have g: "games_of (user_name alice) ?m = ((''alice'', ''gnubg''), 0) # []"
    by code_simp
  have r: "reply ?m 0 = []"
    by code_simp
  have "quit \<in> {move, roll, double, resign, accept, redouble, reject, quit}" by simp
  from turn_token_partial [OF refl this g, of "[]"] g r
  show ?thesis by (simp add: u)
qed

end
